theory Spec2Isabelle
  imports Complex_Main "HOL-Library.Sublist"
begin

section \<open>The command-line chat client of \<open>src/workshop/main.py\<close>\<close>

text \<open>
  The program is sequential glue around a remote agent service, a local database object,
  the file system, the process environment and the terminal. None of these collaborators
  is part of the file, so the model takes their answers from a record \<open>world\<close> and
  records every call the program makes to them, in order, in a trace of events. A
  function of the program is a value of type \<open>'a io\<close>: the events it caused, and
  either the exception it raised (\<open>Inl\<close>) or the value it returned (\<open>Inr\<close>).
  Output written with \<open>print\<close> is not recorded; calls of the logger are, and the
  logger itself does not fail. The objects built when the module is loaded (the client,
  the toolset, the data object) are handles to the collaborators and have no state of
  their own here, except the toolset, which \<open>add_agent_tools\<close> fills.
\<close>

subsection \<open>Python exceptions\<close>

text \<open>
  An exception carries the names of its class and of all the classes it derives from
  (what \<open>isinstance\<close> and an \<open>except\<close> clause look at) and the text \<open>str(e)\<close>.
\<close>

datatype pyexc = PyExc (exc_bases: "string list") (exc_str: string)

definition isinstance :: "pyexc \<Rightarrow> string \<Rightarrow> bool" where
  "isinstance e cls = (cls \<in> set (exc_bases e))"

definition FileNotFoundError :: "string \<Rightarrow> pyexc" where
  "FileNotFoundError msg =
     PyExc [''FileNotFoundError'', ''OSError'', ''Exception'', ''BaseException''] msg"

definition RuntimeError :: "string \<Rightarrow> pyexc" where
  "RuntimeError msg = PyExc [''RuntimeError'', ''Exception'', ''BaseException''] msg"

definition KeyError :: "string \<Rightarrow> pyexc" where
  "KeyError msg =
     PyExc [''KeyError'', ''LookupError'', ''Exception'', ''BaseException''] msg"

definition EOFError :: "string \<Rightarrow> pyexc" where
  "EOFError msg = PyExc [''EOFError'', ''Exception'', ''BaseException''] msg"

definition AttributeError :: "string \<Rightarrow> pyexc" where
  "AttributeError msg = PyExc [''AttributeError'', ''Exception'', ''BaseException''] msg"

text \<open>Exceptions the program never raises itself but can receive: an error of the
  remote service, and the interrupt of the terminal, which is not an \<open>Exception\<close>.\<close>

definition HttpResponseError :: "string \<Rightarrow> pyexc" where
  "HttpResponseError msg =
     PyExc [''HttpResponseError'', ''AzureError'', ''Exception'', ''BaseException''] msg"

definition KeyboardInterrupt :: "string \<Rightarrow> pyexc" where
  "KeyboardInterrupt msg = PyExc [''KeyboardInterrupt'', ''BaseException''] msg"

text \<open>What an \<open>await\<close> raises when its task is cancelled, as it is when the user
  interrupts the program while it waits; \<open>asyncio.CancelledError\<close> derives from
  \<open>BaseException\<close>, not from \<open>Exception\<close>.\<close>

definition CancelledError :: "string \<Rightarrow> pyexc" where
  "CancelledError msg = PyExc [''CancelledError'', ''BaseException''] msg"

subsection \<open>Values, tools and remote objects\<close>

datatype tool =
    AsyncFunctionTool "string list"
  | CodeInterpreterTool
  | FileSearchTool "string list"

datatype pyval =
    PyNone
  | PyStr string
  | PyFloat rat
  | PyInt int
  | PyToolSet "tool list"
  | PyStreamEventHandler

type_synonym kwargs = "(string \<times> pyval) list"

datatype agent = Agent (agent_id: string)

datatype thread = Thread (thread_id: string)

datatype vector_store = VectorStore (vs_id: string)

datatype pydate = Date (year: nat) (month: nat) (day: nat)

subsection \<open>Events and the world\<close>

datatype event =
    CreateVectorStore "string list" string
  | SalesConnect
  | GetDatabaseInfo
  | OsGetenv string string string
  | IsFile string
  | ReadFile string
  | EnableAutoFunctionCalls "string list"
  | CreateAgent kwargs
  | CreateThread
  | MessagesCreate kwargs
  | RunsStream kwargs
  | UntilDone
  | ThreadsDelete string
  | AgentsDelete string
  | SalesClose
  | ClientClose
  | LoggerError string
  | LogMsgPurple string
  | Input

text \<open>
  \<open>OsGetenv key default value\<close> is the call \<open>os.getenv(key, default)\<close> that
  \<open>initialize\<close> makes, with the value it gave: \<open>initialize\<close> binds the value to a
  local name and does not use it again, so the event is where it shows.

  The answers of the collaborators. A call that returns nothing has an outcome of type
  \<open>pyexc option\<close>: \<open>None\<close> is success, \<open>Some e\<close> is the exception it raises.
  The three calls of a conversational turn are indexed by the number of the iteration of
  the interactive loop, so that each turn can succeed or fail on its own.
\<close>

record world =
  w_environ :: "string \<rightharpoonup> string"
  w_base_dir :: string
  w_create_vector_store :: "pyexc + vector_store"
  w_connect :: "pyexc option"
  w_conn_is_none :: bool
  w_get_database_info :: "pyexc + string"
  w_is_file :: bool
  w_read_file :: "pyexc + string"
  w_today :: pydate
  w_enable_auto_function_calls :: "pyexc option"
  w_create_agent :: "pyexc + agent"
  w_create_thread :: "pyexc + thread"
  w_messages_create :: "nat \<Rightarrow> pyexc option"
  w_runs_stream :: "nat \<Rightarrow> pyexc option"
  w_until_done :: "nat \<Rightarrow> pyexc option"
  w_threads_delete :: "pyexc option"
  w_agents_delete :: "pyexc option"
  w_sales_close :: "pyexc option"
  w_client_close :: "pyexc option"

type_synonym 'a io = "event list \<times> (pyexc + 'a)"

definition io_return :: "'a \<Rightarrow> 'a io" where
  "io_return a = ([], Inr a)"

definition io_raise :: "pyexc \<Rightarrow> 'a io" where
  "io_raise e = ([], Inl e)"

definition io_call :: "event \<Rightarrow> pyexc + 'a \<Rightarrow> 'a io" where
  "io_call ev outcome = ([ev], outcome)"

definition outcome :: "pyexc option \<Rightarrow> pyexc + unit" where
  "outcome r = (case r of None \<Rightarrow> Inr () | Some e \<Rightarrow> Inl e)"

text \<open>Sequencing: the second computation runs only when the first returned.\<close>

definition io_bind :: "'a io \<Rightarrow> ('a \<Rightarrow> 'b io) \<Rightarrow> 'b io" where
  "io_bind m f =
     (case m of
        (t, Inl e) \<Rightarrow> (t, Inl e)
      | (t, Inr a) \<Rightarrow> (case f a of (t', r) \<Rightarrow> (t @ t', r)))"

text \<open>\<open>try: m except cls as e: h e\<close>: the handler runs when \<open>m\<close> raised an
  instance of \<open>cls\<close>; any other exception passes through.\<close>

definition try_except :: "'a io \<Rightarrow> string \<Rightarrow> (pyexc \<Rightarrow> 'a io) \<Rightarrow> 'a io" where
  "try_except m cls h =
     (case m of
        (t, Inl e) \<Rightarrow>
          (if isinstance e cls then (case h e of (t', r) \<Rightarrow> (t @ t', r)) else (t, Inl e))
      | (t, Inr a) \<Rightarrow> (t, Inr a))"

text \<open>\<open>try: m finally: fin\<close>: \<open>fin\<close> always runs; its own exception replaces
  the outcome of \<open>m\<close>.\<close>

definition try_finally :: "'a io \<Rightarrow> unit io \<Rightarrow> 'a io" where
  "try_finally m fin =
     (case m of (t, r) \<Rightarrow>
        (case fin of
           (t', Inl e') \<Rightarrow> (t @ t', Inl e')
         | (t', Inr u) \<Rightarrow> (t @ t', r)))"

subsection \<open>\<open>cleanup\<close>\<close>

definition cleanup :: "world \<Rightarrow> agent \<Rightarrow> thread \<Rightarrow> unit io" where
  "cleanup w agent thread =
     io_bind
       (try_except
          (io_call (ThreadsDelete (thread_id thread)) (outcome (w_threads_delete w)))
          ''AttributeError'' (\<lambda>e. io_return ()))
       (\<lambda>u1. io_bind
          (try_except
             (io_call (AgentsDelete (agent_id agent)) (outcome (w_agents_delete w)))
             ''AttributeError'' (\<lambda>e. io_return ()))
          (\<lambda>u2. io_bind
             (io_call SalesClose (outcome (w_sales_close w)))
             (\<lambda>u3. io_call ClientClose (outcome (w_client_close w)))))"

subsection \<open>Strings\<close>

text \<open>
  A Python \<open>str\<close> is a list of code points; a \<open>char\<close> of the model stands for one
  code point below 256. \<open>str.replace(old, new)\<close> scans from the left and replaces the
  occurrences of \<open>old\<close> that do not overlap an occurrence already replaced; for an empty
  \<open>old\<close> it puts \<open>new\<close> before every character and at the end.
\<close>

fun str_replace :: "string \<Rightarrow> string \<Rightarrow> string \<Rightarrow> string" where
  "str_replace old new [] = (if old = [] then new else [])"
| "str_replace old new (c # cs) =
     (if old = [] then new @ c # str_replace old new cs
      else if prefix old (c # cs)
        then new @ str_replace old new (drop (length old) (c # cs))
        else c # str_replace old new cs)"

text \<open>\<open>str.lower()\<close> on code points below 256: the letters A to Z and the accented
  capitals U+00C0 to U+00DE (the multiplication sign U+00D7 apart) move up by 32.\<close>

definition lower_char :: "char \<Rightarrow> char" where
  "lower_char c =
     (let n = (of_char c :: nat)
      in if (65 \<le> n \<and> n \<le> 90) \<or> (192 \<le> n \<and> n \<le> 222 \<and> n \<noteq> 215)
         then char_of (n + 32) else c)"

definition str_lower :: "string \<Rightarrow> string" where
  "str_lower s = map lower_char s"

text \<open>\<open>date.strftime("%Y-%m-%d")\<close>, for the four-digit years 1000 to 9999.\<close>

definition digit_char :: "nat \<Rightarrow> char" where
  "digit_char d = ''0123456789'' ! (d mod 10)"

definition zero_pad2 :: "nat \<Rightarrow> string" where
  "zero_pad2 n = [digit_char (n div 10), digit_char n]"

definition zero_pad4 :: "nat \<Rightarrow> string" where
  "zero_pad4 n =
     [digit_char (n div 1000), digit_char (n div 100), digit_char (n div 10), digit_char n]"

definition strftime_Ymd :: "pydate \<Rightarrow> string" where
  "strftime_Ymd d = zero_pad4 (year d) @ ''-'' @ zero_pad2 (month d) @ ''-'' @ zero_pad2 (day d)"

subsection \<open>The process environment and the module-level constants\<close>


definition os_getenv_default :: "(string \<rightharpoonup> string) \<Rightarrow> string \<Rightarrow> string \<Rightarrow> string" where
  "os_getenv_default environ key dflt = (case environ key of None \<Rightarrow> dflt | Some v \<Rightarrow> v)"

definition os_getenv_call :: "(string \<rightharpoonup> string) \<Rightarrow> string \<Rightarrow> string \<Rightarrow> string io" where
  "os_getenv_call environ key dflt =
     io_call (OsGetenv key dflt (os_getenv_default environ key dflt))
       (Inr (os_getenv_default environ key dflt))"


definition TENTS_DATA_SHEET_FILE :: string where
  "TENTS_DATA_SHEET_FILE = ''datasheet/contoso-tents-datasheet.pdf''"

definition MAX_COMPLETION_TOKENS :: int where
  "MAX_COMPLETION_TOKENS = 4096"

definition MAX_PROMPT_TOKENS :: int where
  "MAX_PROMPT_TOKENS = 10240"

text \<open>The float literals \<open>0.1\<close> are kept as the decimal fractions the source writes; the
  program does no arithmetic on them.\<close>

definition TEMPERATURE :: rat where
  "TEMPERATURE = 1 / 10"

definition TOP_P :: rat where
  "TOP_P = 1 / 10"

text \<open>\<open>INSTRUCTIONS_FILE\<close> is assigned three times in a row; the last value stands.\<close>

definition INSTRUCTIONS_FILE :: string where
  "INSTRUCTIONS_FILE = ''instructions/instructions_file_search.txt''"

text \<open>The module-level \<open>functions\<close> of line 45; the name is reserved in Isabelle.\<close>

definition functions_tool :: tool where
  "functions_tool = AsyncFunctionTool [''async_fetch_sales_data_using_sqlite_query'']"

text \<open>The two module-level constants read from the environment when the module is
  loaded (lines 27 and 28), after \<open>load_dotenv\<close> has filled the environment.\<close>

record config =
  API_DEPLOYMENT_NAME :: "string option"
  PROJECT_ENDPOINT :: string


subsection \<open>\<open>add_agent_tools\<close> and \<open>initialize\<close>\<close>

text \<open>The module-level \<open>toolset\<close> starts empty and is only changed by
  \<open>add_agent_tools\<close>, which returns it here together with the vector store.\<close>

definition add_agent_tools :: "world \<Rightarrow> tool list \<Rightarrow> (tool list \<times> vector_store) io" where
  "add_agent_tools w toolset =
     (let toolset = toolset @ [functions_tool];
          toolset = toolset @ [CodeInterpreterTool]
      in io_bind
           (io_call
              (CreateVectorStore [TENTS_DATA_SHEET_FILE]
                 ''Contoso Product Information Vector Store'')
              (w_create_vector_store w))
           (\<lambda>vector_store.
              io_return (toolset @ [FileSearchTool [vs_id vector_store]], vector_store)))"

definition joinpath :: "string \<Rightarrow> string \<Rightarrow> string" where
  "joinpath base rel = base @ ''/'' @ rel"

definition py_optional_str :: "string option \<Rightarrow> pyval" where
  "py_optional_str v = (case v of None \<Rightarrow> PyNone | Some s \<Rightarrow> PyStr s)"

text \<open>Lines 107 to 109: the two substitutions, in the order of the source.\<close>

definition render_instructions :: "string \<Rightarrow> string \<Rightarrow> pydate \<Rightarrow> string" where
  "render_instructions instructions database_schema_string today =
     (let instructions =
            str_replace ''{database_schema_string}'' database_schema_string instructions;
          instructions = str_replace ''{current_date}'' (strftime_Ymd today) instructions
      in instructions)"

text \<open>The keyword arguments of the call \<open>create_agent\<close> of lines 118 to 125.\<close>

definition create_agent_kwargs :: "config \<Rightarrow> string \<Rightarrow> tool list \<Rightarrow> kwargs" where
  "create_agent_kwargs cfg instructions toolset =
     [(''model'', py_optional_str (API_DEPLOYMENT_NAME cfg)),
      (''name'', PyStr ''Contoso Sales AI Agent''),
      (''instructions'', PyStr instructions),
      (''toolset'', PyToolSet toolset),
      (''temperature'', PyFloat TEMPERATURE)]"

definition initialize :: "world \<Rightarrow> config \<Rightarrow> (agent \<times> thread) io" where
  "initialize w cfg =
     io_bind (add_agent_tools w []) (\<lambda>(toolset, vector_store).
     io_bind (io_call SalesConnect (outcome (w_connect w))) (\<lambda>u.
     io_bind (io_call GetDatabaseInfo (w_get_database_info w)) (\<lambda>database_schema_string.
     try_except
       (io_bind (os_getenv_call (w_environ w) ''ENVIRONMENT'' ''local'') (\<lambda>env.
        let INSTRUCTIONS_FILE_PATH = joinpath (w_base_dir w) INSTRUCTIONS_FILE
        in io_bind (io_call (IsFile INSTRUCTIONS_FILE_PATH) (Inr (w_is_file w))) (\<lambda>is_file.
           if \<not> is_file then
             io_raise (FileNotFoundError
               (''Instructions file not found: '' @ INSTRUCTIONS_FILE_PATH))
           else if w_conn_is_none w then
             io_raise (RuntimeError
               ''Database connection unavailable. Check SQLite DB path and permissions.'')
           else
             io_bind (io_call (ReadFile INSTRUCTIONS_FILE_PATH) (w_read_file w))
               (\<lambda>instructions.
             let instructions =
                   render_instructions instructions database_schema_string (w_today w)
             in io_bind
                  (io_call
                     (EnableAutoFunctionCalls [''async_fetch_sales_data_using_sqlite_query''])
                     (outcome (w_enable_auto_function_calls w)))
                  (\<lambda>u.
                io_bind
                  (io_call (CreateAgent (create_agent_kwargs cfg instructions toolset))
                     (w_create_agent w))
                  (\<lambda>agent.
                io_bind (io_call CreateThread (w_create_thread w)) (\<lambda>thread.
                io_return (agent, thread))))))))
       ''Exception''
       (\<lambda>e.
          io_bind
            (io_call (LoggerError (''An error occurred initializing the agent: '' @ exc_str e))
               (Inr ()))
            (\<lambda>u.
          io_bind
            (io_call
               (LoggerError
                  ''Please ensure the instructions file exists and the database is accessible.'')
               (Inr ()))
            (\<lambda>u. io_raise e))))))"

subsection \<open>\<open>post_message\<close>\<close>

definition post_message :: "world \<Rightarrow> nat \<Rightarrow> string \<Rightarrow> string \<Rightarrow> agent \<Rightarrow> thread \<Rightarrow> unit io" where
  "post_message w turn thread_id' content agent thread =
     try_except
       (io_bind
          (io_call
             (MessagesCreate
                [(''thread_id'', PyStr thread_id'), (''role'', PyStr ''user''),
                 (''content'', PyStr content)])
             (outcome (w_messages_create w turn)))
          (\<lambda>u. io_bind
             (io_call
                (RunsStream
                   [(''thread_id'', PyStr (thread_id thread)),
                    (''agent_id'', PyStr (agent_id agent)),
                    (''event_handler'', PyStreamEventHandler)])
                (outcome (w_runs_stream w turn)))
             (\<lambda>stream. io_call UntilDone (outcome (w_until_done w turn)))))
       ''Exception''
       (\<lambda>e. io_call
          (LogMsgPurple (''An error occurred posting the message: '' @ exc_str e))
          (Inr ()))"

subsection \<open>\<open>main\<close>\<close>

text \<open>
  The terminal is a list of the lines the user will enter; \<open>input()\<close> raises
  \<open>EOFError\<close> when it is exhausted. One iteration of the \<open>while True\<close> loop ends in
  \<open>break\<close>, or goes on to the next iteration (after \<open>continue\<close> or at the end of the body).
\<close>

datatype loop_control = Break | Continue

definition loop_body :: "world \<Rightarrow> agent \<Rightarrow> thread \<Rightarrow> nat \<Rightarrow> string \<Rightarrow> loop_control io" where
  "loop_body w agent thread turn prompt =
     (if str_lower prompt = ''exit'' then io_return Break
      else if prompt = [] then io_return Continue
      else io_bind (post_message w turn (thread_id thread) prompt agent thread)
             (\<lambda>u. io_return Continue))"

fun main_loop :: "world \<Rightarrow> agent \<Rightarrow> thread \<Rightarrow> nat \<Rightarrow> string list \<Rightarrow> unit io" where
  "main_loop w agent thread turn [] = io_call Input (Inl (EOFError ''EOF when reading a line''))"
| "main_loop w agent thread turn (line # lines) =
     io_bind (io_call Input (Inr line)) (\<lambda>prompt.
     io_bind (loop_body w agent thread turn prompt) (\<lambda>c.
       case c of
         Break \<Rightarrow> io_return ()
       | Continue \<Rightarrow> main_loop w agent thread (Suc turn) lines))"

definition main :: "world \<Rightarrow> config \<Rightarrow> string list \<Rightarrow> unit io" where
  "main w cfg lines =
     io_bind
       (try_except
          (io_bind (initialize w cfg) (\<lambda>r. io_return (Some r)))
          ''Exception''
          (\<lambda>e. io_bind
             (io_call (LoggerError (''Initialization failed: '' @ exc_str e)) (Inr ()))
             (\<lambda>u. io_return None)))
       (\<lambda>r. case r of
          None \<Rightarrow> io_return ()
        | Some (agent, thread) \<Rightarrow>
            try_finally (main_loop w agent thread 0 lines) (cleanup w agent thread))"


subsection \<open>A scenario for the examples\<close>

text \<open>
  A world in which every collaborator answers: the instructions template, schema string
  and date are those of the scenario of the specification, and every remote call succeeds.
  The examples below change one answer at a time.
\<close>

definition example_world :: world where
  "example_world =
     \<lparr>w_environ =
        [''PROJECT_ENDPOINT'' \<mapsto> ''https://example.test/api/projects/p'',
         ''MODEL_DEPLOYMENT_NAME'' \<mapsto> ''gpt-4o''],
      w_base_dir = ''/app/src/workshop'',
      w_create_vector_store = Inr (VectorStore ''vs_1''),
      w_connect = None,
      w_conn_is_none = False,
      w_get_database_info = Inr ''tbl(id)'',
      w_is_file = True,
      w_read_file = Inr ''Schema: {database_schema_string}, Date: {current_date}'',
      w_today = Date 2024 5 1,
      w_enable_auto_function_calls = None,
      w_create_agent = Inr (Agent ''asst_1''),
      w_create_thread = Inr (Thread ''thread_1''),
      w_messages_create = (\<lambda>turn. None),
      w_runs_stream = (\<lambda>turn. None),
      w_until_done = (\<lambda>turn. None),
      w_threads_delete = None,
      w_agents_delete = None,
      w_sales_close = None,
      w_client_close = None\<rparr>"

definition example_config :: config where
  "example_config =
     \<lparr>API_DEPLOYMENT_NAME = Some ''gpt-4o'',
      PROJECT_ENDPOINT = ''https://example.test/api/projects/p''\<rparr>"

section \<open>Properties\<close>

lemmas io_defs =
  io_bind_def io_call_def io_return_def io_raise_def try_except_def try_finally_def outcome_def

lemmas exc_defs =
  isinstance_def FileNotFoundError_def RuntimeError_def KeyError_def EOFError_def
  AttributeError_def HttpResponseError_def KeyboardInterrupt_def CancelledError_def

subsection \<open>The scenario, run\<close>

lemma example_initialize:
  "initialize example_world example_config =
     ([CreateVectorStore [''datasheet/contoso-tents-datasheet.pdf'']
         ''Contoso Product Information Vector Store'',
       SalesConnect, GetDatabaseInfo, OsGetenv ''ENVIRONMENT'' ''local'' ''local'',
       IsFile ''/app/src/workshop/instructions/instructions_file_search.txt'',
       ReadFile ''/app/src/workshop/instructions/instructions_file_search.txt'',
       EnableAutoFunctionCalls [''async_fetch_sales_data_using_sqlite_query''],
       CreateAgent
        [(''model'', PyStr ''gpt-4o''), (''name'', PyStr ''Contoso Sales AI Agent''),
         (''instructions'', PyStr ''Schema: tbl(id), Date: 2024-05-01''),
         (''toolset'',
          PyToolSet
           [AsyncFunctionTool [''async_fetch_sales_data_using_sqlite_query''],
            CodeInterpreterTool, FileSearchTool [''vs_1'']]),
         (''temperature'', PyFloat (1 / 10))],
       CreateThread],
      Inr (Agent ''asst_1'', Thread ''thread_1''))"
  by (simp add: initialize_def add_agent_tools_def os_getenv_call_def io_defs example_world_def example_config_def
      render_instructions_def create_agent_kwargs_def joinpath_def INSTRUCTIONS_FILE_def
      TENTS_DATA_SHEET_FILE_def functions_tool_def py_optional_str_def TEMPERATURE_def
      strftime_Ymd_def zero_pad4_def zero_pad2_def digit_char_def os_getenv_default_def Let_def)

subsection \<open>Cleanup\<close>

text \<open>
  What \<open>cleanup\<close> does when the first delete call raises: an \<open>AttributeError\<close> is
  dropped and the next step runs; anything else leaves \<open>cleanup\<close> at once.
\<close>

lemma cleanup_threads_delete_raises:
  assumes "w_threads_delete w = Some e"
  shows "cleanup w agent thread =
     (if isinstance e ''AttributeError''
      then cleanup (w\<lparr>w_threads_delete := None\<rparr>) agent thread
      else ([ThreadsDelete (thread_id thread)], Inl e))"
  using assms by (simp add: cleanup_def io_defs)

lemma cleanup_begins_with_threads_delete:
  "\<exists>t. fst (cleanup w agent thread) = ThreadsDelete (thread_id thread) # t"
  by (simp add: cleanup_def io_defs split: option.split sum.split prod.split)




text \<open>
  C9. When the thread-delete call raises an exception that is not an \<open>AttributeError\<close>,
  \<open>cleanup\<close> raises that exception and has made no other call: the agent is not deleted,
  and neither the database connection nor the remote client is closed.
\<close>

theorem cleanup_threads_delete_failure_skips_rest:
  assumes "w_threads_delete w = Some e" and "\<not> isinstance e ''AttributeError''"
  shows "cleanup w agent thread = ([ThreadsDelete (thread_id thread)], Inl e)
    \<and> AgentsDelete (agent_id agent) \<notin> set (fst (cleanup w agent thread))
    \<and> SalesClose \<notin> set (fst (cleanup w agent thread))
    \<and> ClientClose \<notin> set (fst (cleanup w agent thread))"
  using assms by (simp add: cleanup_threads_delete_raises)

theorem cleanup_threads_delete_failure_skips_rest_witness:
  "cleanup (example_world\<lparr>w_threads_delete := Some (HttpResponseError ''503'')\<rparr>)
       (Agent ''asst_1'') (Thread ''thread_1'')
     = ([ThreadsDelete ''thread_1''], Inl (HttpResponseError ''503''))
   \<and> cleanup example_world (Agent ''asst_1'') (Thread ''thread_1'')
     = ([ThreadsDelete ''thread_1'', AgentsDelete ''asst_1'', SalesClose, ClientClose], Inr ())"
proof -
  have h1: "w_threads_delete (example_world\<lparr>w_threads_delete := Some (HttpResponseError ''503'')\<rparr>)
      = Some (HttpResponseError ''503'')"
    by simp
  have h2: "\<not> isinstance (HttpResponseError ''503'') ''AttributeError''"
    by (simp add: exc_defs)
  have "cleanup example_world (Agent ''asst_1'') (Thread ''thread_1'')
     = ([ThreadsDelete ''thread_1'', AgentsDelete ''asst_1'', SalesClose, ClientClose], Inr ())"
    by (simp add: cleanup_def io_defs example_world_def)
  with cleanup_threads_delete_failure_skips_rest [OF h1 h2, of "Agent ''asst_1''" "Thread ''thread_1''"]
  show ?thesis by simp
qed

subsection \<open>The environment\<close>







subsection \<open>Lower case and the word \<open>exit\<close>\<close>

lemma char_of_nat_inj: "a < 256 \<Longrightarrow> b < 256 \<Longrightarrow> (char_of (a::nat) = char_of (b::nat)) = (a = b)"
  by (simp add: char_of_eq_iff take_bit_eq_mod)

lemma lower_char_eq_ascii:
  assumes "97 \<le> (of_char t :: nat)" "(of_char t :: nat) \<le> 122"
  shows "lower_char c = t \<longleftrightarrow> c = t \<or> of_char c + 32 = (of_char t :: nat)"
proof -
  define n where "n = (of_char c :: nat)"
  define m where "m = (of_char t :: nat)"
  have n: "n < 256" by (simp add: n_def)
  have m: "97 \<le> m" "m \<le> 122" using assms by (simp_all add: m_def)
  have ct: "c = t \<longleftrightarrow> n = m" by (simp add: n_def m_def)
  have lc: "lower_char c =
      (if (65 \<le> n \<and> n \<le> 90) \<or> (192 \<le> n \<and> n \<le> 222 \<and> n \<noteq> 215) then char_of (n + 32) else c)"
    unfolding lower_char_def Let_def n_def ..
  show ?thesis
  proof (cases "(65 \<le> n \<and> n \<le> 90) \<or> (192 \<le> n \<and> n \<le> 222 \<and> n \<noteq> 215)")
    case True
    then have "lower_char c = char_of (n + 32)"
      by (simp only: lc if_True)
    moreover have "char_of (n + 32) = t \<longleftrightarrow> n + 32 = m"
    proof -
      have "char_of (n + 32) = t \<longleftrightarrow> char_of (n + 32) = (char_of m :: char)"
        by (simp add: m_def)
      also have "\<dots> \<longleftrightarrow> n + 32 = m"
        using True m by (intro char_of_nat_inj) auto
      finally show ?thesis .
    qed
    moreover have "n \<noteq> m" using True m by auto
    ultimately have "lower_char c = t \<longleftrightarrow> c = t \<or> n + 32 = m" using ct by auto
    then show ?thesis unfolding n_def m_def .
  next
    case False
    then have "lower_char c = c"
      by (simp only: lc if_False)
    moreover have "n + 32 \<noteq> m" using False m by auto
    ultimately have "lower_char c = t \<longleftrightarrow> c = t \<or> n + 32 = m" by simp
    then show ?thesis unfolding n_def m_def .
  qed
qed


lemma lower_e: "lower_char c = CHR ''e'' \<longleftrightarrow> c = CHR ''e'' \<or> c = CHR ''E''"
proof -
  have "of_char c + 32 = (101::nat) \<longleftrightarrow> c = CHR ''E''"
  proof
    assume "of_char c + 32 = (101::nat)"
    then have "(of_char c :: nat) = of_char (CHR ''E'')" by simp
    then show "c = CHR ''E''" by (simp only: of_char_eq_iff)
  qed simp
  with lower_char_eq_ascii[of "CHR ''e''" c] show ?thesis by simp
qed

lemma str_lower_exit_iff:
  "str_lower s = ''exit'' \<longleftrightarrow>
     (\<exists>a b c d. s = [a, b, c, d] \<and> lower_char a = CHR ''e''  \<and> lower_char b = CHR ''x''
        \<and> lower_char c = CHR ''i'' \<and> lower_char d = CHR ''t'')"
  unfolding str_lower_def
  by (auto simp: map_eq_Cons_conv)

lemma lower_x: "lower_char c = CHR ''x'' \<longleftrightarrow> c = CHR ''x'' \<or> c = CHR ''X''"
proof -
  have "of_char c + 32 = (120::nat) \<longleftrightarrow> c = CHR ''X''"
  proof
    assume "of_char c + 32 = (120::nat)"
    then have "(of_char c :: nat) = of_char (CHR ''X'')" by simp
    then show "c = CHR ''X''" by (simp only: of_char_eq_iff)
  qed simp
  with lower_char_eq_ascii[of "CHR ''x''" c] show ?thesis by simp
qed

lemma lower_i: "lower_char c = CHR ''i'' \<longleftrightarrow> c = CHR ''i'' \<or> c = CHR ''I''"
proof -
  have "of_char c + 32 = (105::nat) \<longleftrightarrow> c = CHR ''I''"
  proof
    assume "of_char c + 32 = (105::nat)"
    then have "(of_char c :: nat) = of_char (CHR ''I'')" by simp
    then show "c = CHR ''I''" by (simp only: of_char_eq_iff)
  qed simp
  with lower_char_eq_ascii[of "CHR ''i''" c] show ?thesis by simp
qed

lemma lower_t: "lower_char c = CHR ''t'' \<longleftrightarrow> c = CHR ''t'' \<or> c = CHR ''T''"
proof -
  have "of_char c + 32 = (116::nat) \<longleftrightarrow> c = CHR ''T''"
  proof
    assume "of_char c + 32 = (116::nat)"
    then have "(of_char c :: nat) = of_char (CHR ''T'')" by simp
    then show "c = CHR ''T''" by (simp only: of_char_eq_iff)
  qed simp
  with lower_char_eq_ascii[of "CHR ''t''" c] show ?thesis by simp
qed

lemma str_lower_exit_spellings:
  "str_lower s = ''exit'' \<longleftrightarrow>
     (\<exists>a b c d. s = [a, b, c, d] \<and> a \<in> {CHR ''e'', CHR ''E''} \<and> b \<in> {CHR ''x'', CHR ''X''}
        \<and> c \<in> {CHR ''i'', CHR ''I''} \<and> d \<in> {CHR ''t'', CHR ''T''})"
  by (simp add: str_lower_exit_iff lower_e lower_x lower_i lower_t)

lemma str_lower_length: "length (str_lower s) = length s"
  by (simp add: str_lower_def)

subsection \<open>The interactive loop\<close>

text \<open>After a successful \<open>initialize\<close>, \<open>main\<close> runs the loop and then, whatever the
  loop did, \<open>cleanup\<close> (the \<open>finally\<close> clause of lines 206 and 207).\<close>

lemma main_after_initialize:
  assumes "initialize w cfg = (ti, Inr (agent, thread))"
  shows "main w cfg ls =
    (ti @ fst (main_loop w agent thread 0 ls) @ fst (cleanup w agent thread),
     (case snd (cleanup w agent thread) of
        Inl e \<Rightarrow> Inl e
      | Inr u \<Rightarrow> snd (main_loop w agent thread 0 ls)))"
proof -
  obtain tl rl where l: "main_loop w agent thread 0 ls = (tl, rl)"
    by (cases "main_loop w agent thread 0 ls")
  obtain tc rc where c: "cleanup w agent thread = (tc, rc)"
    by (cases "cleanup w agent thread")
  show ?thesis
    by (simp add: main_def assms io_defs l c split: sum.split)
qed

lemma post_message_raises_no_Exception:
  assumes "snd (post_message w turn tid content agent thread) = Inl e"
  shows "\<not> isinstance e ''Exception''"
  using assms
  by (auto simp: post_message_def io_defs split: option.splits if_splits)

lemma loop_body_raises_no_Exception:
  assumes "snd (loop_body w agent thread turn line) = Inl e"
  shows "\<not> isinstance e ''Exception''"
proof -
  from assms have "snd (post_message w turn (thread_id thread) line agent thread) = Inl e"
    by (cases "post_message w turn (thread_id thread) line agent thread")
       (auto simp: loop_body_def io_bind_def io_return_def split: if_splits sum.splits)
  then show ?thesis by (rule post_message_raises_no_Exception)
qed

lemma main_loop_step:
  "main_loop w agent thread turn (line # lines) =
     (case loop_body w agent thread turn line of
        (tb, Inl e) \<Rightarrow> (Input # tb, Inl e)
      | (tb, Inr Break) \<Rightarrow> (Input # tb, Inr ())
      | (tb, Inr Continue) \<Rightarrow>
          (Input # tb @ fst (main_loop w agent thread (Suc turn) lines),
           snd (main_loop w agent thread (Suc turn) lines)))"
  by (simp add: io_bind_def io_call_def io_return_def
      split: prod.split sum.split loop_control.split)

lemma main_loop_trace_nonempty: "fst (main_loop w agent thread turn lines) \<noteq> []"
  by (cases lines)
     (simp_all add: main_loop_step io_call_def split: prod.split sum.split loop_control.split
        del: main_loop.simps(2))

text \<open>
  The loop comes to read a line after the lines \<open>earlier\<close> exactly when its run on
  \<open>earlier\<close> alone ends with the \<open>EOFError\<close> of \<open>input()\<close>: no earlier line was
  \<open>exit\<close> and no earlier turn raised. Its run on a longer input then goes on, after the
  events of the earlier lines, as the loop does on the rest.
\<close>

lemma main_loop_reaches:
  assumes "snd (main_loop w agent thread turn earlier) = Inl (EOFError m)"
  shows "main_loop w agent thread turn (earlier @ rest) =
    (butlast (fst (main_loop w agent thread turn earlier))
       @ fst (main_loop w agent thread (turn + length earlier) rest),
     snd (main_loop w agent thread (turn + length earlier) rest))"
  using assms
proof (induction earlier arbitrary: turn)
  case Nil
  then show ?case by (simp add: io_call_def)
next
  case (Cons line earlier)
  obtain tb rb where b: "loop_body w agent thread turn line = (tb, rb)"
    by (cases "loop_body w agent thread turn line")
  show ?case
  proof (cases rb)
    case (Inl e)
    with b Cons.prems have "e = EOFError m"
      by (simp add: main_loop_step del: main_loop.simps(2))
    moreover have "\<not> isinstance e ''Exception''"
      using loop_body_raises_no_Exception [of w agent thread turn line e] b Inl by simp
    ultimately show ?thesis by (simp add: exc_defs)
  next
    case (Inr c)
    show ?thesis
    proof (cases c)
      case Break
      with b Inr Cons.prems show ?thesis
        by (simp add: main_loop_step del: main_loop.simps(2))
    next
      case Continue
      with b Inr Cons.prems
      have "snd (main_loop w agent thread (Suc turn) earlier) = Inl (EOFError m)"
        by (simp add: main_loop_step del: main_loop.simps(2))
      from Cons.IH [OF this] b Inr Continue
        main_loop_trace_nonempty [of w agent thread "Suc turn" earlier]
      show ?thesis
        by (simp add: main_loop_step butlast_append del: main_loop.simps(2))
    qed
  qed
qed

text \<open>
  C6. When the line read is \<open>exit\<close> in any letter case (its lower-case form is
  \<open>exit\<close>), the iteration ends in \<open>break\<close> without any call, at whatever turn: the
  loop returns after the \<open>Input\<close> event that read the line. In \<open>main\<close>, after a
  successful \<open>initialize\<close>, the events that follow that \<open>Input\<close> are those of
  \<open>cleanup\<close> and nothing else, and \<open>main\<close> ends as \<open>cleanup\<close> does: no message is
  posted for the line, and cleanup is performed. This holds for an \<open>exit\<close> that is the
  first line, and for one that the loop comes to read after the lines \<open>earlier\<close>.
\<close>

theorem exit_ends_loop_then_cleanup:
  assumes "initialize w cfg = (ti, Inr (agent, thread))" and "str_lower line = ''exit''"
  shows "loop_body w agent thread turn line = ([], Inr Break)
    \<and> main_loop w agent thread turn (line # lines) = ([Input], Inr ())
    \<and> main w cfg (line # lines)
      = (ti @ Input # fst (cleanup w agent thread), snd (cleanup w agent thread))
    \<and> (snd (main_loop w agent thread 0 earlier) = Inl (EOFError ''EOF when reading a line'') \<longrightarrow>
        main w cfg (earlier @ line # lines)
          = (ti @ butlast (fst (main_loop w agent thread 0 earlier))
               @ Input # fst (cleanup w agent thread),
             snd (cleanup w agent thread)))"
proof -
  have body: "loop_body w agent thread turn line = ([], Inr Break)" for turn
    using assms(2) by (simp add: loop_body_def io_return_def)
  have loop: "main_loop w agent thread turn (line # lines) = ([Input], Inr ())" for turn
    by (simp add: main_loop_step body del: main_loop.simps(2))
  have first: "main w cfg (line # lines)
      = (ti @ Input # fst (cleanup w agent thread), snd (cleanup w agent thread))"
    unfolding main_after_initialize [OF assms(1)] loop
    by (cases "snd (cleanup w agent thread)") simp_all
  have later: "main w cfg (earlier @ line # lines)
          = (ti @ butlast (fst (main_loop w agent thread 0 earlier))
               @ Input # fst (cleanup w agent thread),
             snd (cleanup w agent thread))"
    if "snd (main_loop w agent thread 0 earlier) = Inl (EOFError ''EOF when reading a line'')"
    unfolding main_after_initialize [OF assms(1)] main_loop_reaches [OF that] loop
    by (cases "snd (cleanup w agent thread)") simp_all
  from body loop first later show ?thesis by blast
qed

theorem exit_ends_loop_then_cleanup_witness:
  "main example_world example_config [''EXIT'', ''hello''] =
     ([CreateVectorStore [''datasheet/contoso-tents-datasheet.pdf'']
         ''Contoso Product Information Vector Store'',
       SalesConnect, GetDatabaseInfo, OsGetenv ''ENVIRONMENT'' ''local'' ''local'',
       IsFile ''/app/src/workshop/instructions/instructions_file_search.txt'',
       ReadFile ''/app/src/workshop/instructions/instructions_file_search.txt'',
       EnableAutoFunctionCalls [''async_fetch_sales_data_using_sqlite_query''],
       CreateAgent
        [(''model'', PyStr ''gpt-4o''), (''name'', PyStr ''Contoso Sales AI Agent''),
         (''instructions'', PyStr ''Schema: tbl(id), Date: 2024-05-01''),
         (''toolset'',
          PyToolSet
           [AsyncFunctionTool [''async_fetch_sales_data_using_sqlite_query''],
            CodeInterpreterTool, FileSearchTool [''vs_1'']]),
         (''temperature'', PyFloat (1 / 10))],
       CreateThread,
       Input,
       ThreadsDelete ''thread_1'', AgentsDelete ''asst_1'', SalesClose, ClientClose],
      Inr ())
   \<and> main example_world example_config [''hello'', ''Exit''] =
     ([CreateVectorStore [''datasheet/contoso-tents-datasheet.pdf'']
         ''Contoso Product Information Vector Store'',
       SalesConnect, GetDatabaseInfo, OsGetenv ''ENVIRONMENT'' ''local'' ''local'',
       IsFile ''/app/src/workshop/instructions/instructions_file_search.txt'',
       ReadFile ''/app/src/workshop/instructions/instructions_file_search.txt'',
       EnableAutoFunctionCalls [''async_fetch_sales_data_using_sqlite_query''],
       CreateAgent
        [(''model'', PyStr ''gpt-4o''), (''name'', PyStr ''Contoso Sales AI Agent''),
         (''instructions'', PyStr ''Schema: tbl(id), Date: 2024-05-01''),
         (''toolset'',
          PyToolSet
           [AsyncFunctionTool [''async_fetch_sales_data_using_sqlite_query''],
            CodeInterpreterTool, FileSearchTool [''vs_1'']]),
         (''temperature'', PyFloat (1 / 10))],
       CreateThread,
       Input,
       MessagesCreate [(''thread_id'', PyStr ''thread_1''), (''role'', PyStr ''user''),
         (''content'', PyStr ''hello'')],
       RunsStream [(''thread_id'', PyStr ''thread_1''), (''agent_id'', PyStr ''asst_1''),
         (''event_handler'', PyStreamEventHandler)],
       UntilDone,
       Input,
       ThreadsDelete ''thread_1'', AgentsDelete ''asst_1'', SalesClose, ClientClose],
      Inr ())"
proof -
  have h1: "str_lower ''EXIT'' = ''exit''" and h2: "str_lower ''Exit'' = ''exit''"
    and n: "str_lower ''hello'' \<noteq> ''exit''"
    by (simp_all add: str_lower_exit_spellings)
  have c: "cleanup example_world (Agent ''asst_1'') (Thread ''thread_1'')
     = ([ThreadsDelete ''thread_1'', AgentsDelete ''asst_1'', SalesClose, ClientClose], Inr ())"
    by (simp add: cleanup_def io_defs example_world_def)
  have e: "main_loop example_world (Agent ''asst_1'') (Thread ''thread_1'') 0 [''hello''] =
     ([Input,
       MessagesCreate [(''thread_id'', PyStr ''thread_1''), (''role'', PyStr ''user''),
         (''content'', PyStr ''hello'')],
       RunsStream [(''thread_id'', PyStr ''thread_1''), (''agent_id'', PyStr ''asst_1''),
         (''event_handler'', PyStreamEventHandler)],
       UntilDone,
       Input], Inl (EOFError ''EOF when reading a line''))"
    by (simp add: loop_body_def n post_message_def io_defs example_world_def)
  show ?thesis
    using
      exit_ends_loop_then_cleanup [OF example_initialize h1, where lines = "[''hello'']"
        and earlier = "[]"]
      exit_ends_loop_then_cleanup [OF example_initialize h2, where lines = "[]"
        and earlier = "[''hello'']"]
    by (simp add: c e del: main_loop.simps)
qed

text \<open>
  C7. An empty line causes no call at all: the iteration goes on to the next one, whose
  first action is to read the next line.
\<close>

theorem empty_line_reprompts:
  "loop_body w agent thread turn [] = ([], Inr Continue)
   \<and> main_loop w agent thread turn ([] # lines)
     = (Input # fst (main_loop w agent thread (Suc turn) lines),
        snd (main_loop w agent thread (Suc turn) lines))"
  by (auto simp: loop_body_def io_defs str_lower_def split: prod.splits sum.splits)

theorem empty_line_reprompts_witness:
  "main_loop example_world (Agent ''asst_1'') (Thread ''thread_1'') 0 [[], [], ''Exit'']
     = ([Input, Input, Input], Inr ())"
  using
    empty_line_reprompts [of example_world "Agent ''asst_1''" "Thread ''thread_1''" 0 "[[], ''Exit'']"]
    empty_line_reprompts [of example_world "Agent ''asst_1''" "Thread ''thread_1''" 1 "[''Exit'']"]
  by (simp add: loop_body_def io_defs str_lower_exit_spellings)

lemma surrounded_not_exit:
  assumes "str_lower core = ''exit''" "pre \<noteq> [] \<or> post \<noteq> []"
  shows "str_lower (pre @ core @ post) \<noteq> ''exit''" "pre @ core @ post \<noteq> []"
proof -
  have "length core = 4" using assms(1) str_lower_length[of core] by simp
  then have "length (str_lower (pre @ core @ post)) \<noteq> 4"
    using assms(2) by (auto simp: str_lower_length)
  then show "str_lower (pre @ core @ post) \<noteq> ''exit''" by auto
  show "pre @ core @ post \<noteq> []" using assms(2) by auto
qed

lemma post_message_begins:
  "\<exists>t. fst (post_message w turn tid content agent thread) =
     MessagesCreate [(''thread_id'', PyStr tid), (''role'', PyStr ''user''), (''content'', PyStr content)] # t"
  by (simp add: post_message_def io_defs split: option.split sum.split prod.split)

text \<open>
  C10. An iteration ends in \<open>break\<close> exactly for the sixteen spellings of \<open>exit\<close> in
  upper and lower case. A line that has anything (a space, for instance) before or
  after such a spelling is not the exit command: the iteration posts the whole line, as
  it stands, as the content of a user message.
\<close>

theorem surrounded_exit_is_posted:
  "(snd (loop_body w agent thread turn line) = Inr Break) =
     (\<exists>a b c d. line = [a, b, c, d] \<and> a \<in> {CHR ''e'', CHR ''E''} \<and> b \<in> {CHR ''x'', CHR ''X''}
        \<and> c \<in> {CHR ''i'', CHR ''I''} \<and> d \<in> {CHR ''t'', CHR ''T''})
   \<and> (str_lower core = ''exit'' \<and> (pre \<noteq> [] \<or> post \<noteq> []) \<longrightarrow>
        loop_body w agent thread turn (pre @ core @ post)
          = io_bind (post_message w turn (thread_id thread) (pre @ core @ post) agent thread)
              (\<lambda>u. io_return Continue)
        \<and> hd (fst (loop_body w agent thread turn (pre @ core @ post)))
          = MessagesCreate [(''thread_id'', PyStr (thread_id thread)), (''role'', PyStr ''user''),
              (''content'', PyStr (pre @ core @ post))])"
proof (intro conjI impI)
  show "(snd (loop_body w agent thread turn line) = Inr Break) =
     (\<exists>a b c d. line = [a, b, c, d] \<and> a \<in> {CHR ''e'', CHR ''E''} \<and> b \<in> {CHR ''x'', CHR ''X''}
        \<and> c \<in> {CHR ''i'', CHR ''I''} \<and> d \<in> {CHR ''t'', CHR ''T''})"
    unfolding str_lower_exit_spellings[symmetric]
    by (auto simp: loop_body_def io_bind_def io_return_def split: prod.splits sum.splits)
next
  assume a: "str_lower core = ''exit'' \<and> (pre \<noteq> [] \<or> post \<noteq> [])"
  let ?line = "pre @ core @ post"
  have ne: "str_lower ?line \<noteq> ''exit''" "?line \<noteq> []"
    using a surrounded_not_exit by blast+
  then show body: "loop_body w agent thread turn ?line
          = io_bind (post_message w turn (thread_id thread) ?line agent thread)
              (\<lambda>u. io_return Continue)"
    by (auto simp: loop_body_def)
  obtain t where t: "fst (post_message w turn (thread_id thread) ?line agent thread) =
     MessagesCreate [(''thread_id'', PyStr (thread_id thread)), (''role'', PyStr ''user''),
       (''content'', PyStr ?line)] # t"
    using post_message_begins by blast
  show "hd (fst (loop_body w agent thread turn ?line))
          = MessagesCreate [(''thread_id'', PyStr (thread_id thread)), (''role'', PyStr ''user''),
              (''content'', PyStr ?line)]"
    unfolding body using t
    by (cases "post_message w turn (thread_id thread) ?line agent thread")
       (auto simp: io_bind_def io_return_def split: sum.splits)
qed

theorem surrounded_exit_is_posted_witness:
  "loop_body example_world (Agent ''asst_1'') (Thread ''thread_1'') 0 '' exit''
     = ([MessagesCreate [(''thread_id'', PyStr ''thread_1''), (''role'', PyStr ''user''),
              (''content'', PyStr '' exit'')],
         RunsStream [(''thread_id'', PyStr ''thread_1''), (''agent_id'', PyStr ''asst_1''),
              (''event_handler'', PyStreamEventHandler)],
         UntilDone], Inr Continue)
   \<and> snd (loop_body example_world (Agent ''asst_1'') (Thread ''thread_1'') 0 ''exit '') \<noteq> Inr Break
   \<and> snd (loop_body example_world (Agent ''asst_1'') (Thread ''thread_1'') 0 ''eXiT'') = Inr Break"
proof -
  have l: "str_lower ''exit'' = ''exit''"
    by (simp add: str_lower_exit_spellings)
  have "loop_body example_world (Agent ''asst_1'') (Thread ''thread_1'') 0 ('' '' @ ''exit'' @ [])
     = io_bind (post_message example_world 0 (thread_id (Thread ''thread_1'')) ('' '' @ ''exit'' @ [])
         (Agent ''asst_1'') (Thread ''thread_1'')) (\<lambda>u. io_return Continue)"
    using surrounded_exit_is_posted [of example_world "Agent ''asst_1''" "Thread ''thread_1''" 0 "''exit''" "''exit''" "'' ''" "[]"] l
    by simp
  moreover have "snd (loop_body example_world (Agent ''asst_1'') (Thread ''thread_1'') 0 ''exit '') \<noteq> Inr Break"
    using surrounded_exit_is_posted [of example_world "Agent ''asst_1''" "Thread ''thread_1''" 0 "''exit ''" "''exit''" "[]" "'' ''"]
    by simp
  moreover have "snd (loop_body example_world (Agent ''asst_1'') (Thread ''thread_1'') 0 ''eXiT'') = Inr Break"
    using surrounded_exit_is_posted [of example_world "Agent ''asst_1''" "Thread ''thread_1''" 0 "''eXiT''" "''exit''" "[]" "'' ''"]
    by simp
  ultimately show ?thesis
    by (simp add: post_message_def io_defs example_world_def)
qed

subsection \<open>Initialization\<close>

text \<open>The only call of \<open>create_agent\<close> is the one of lines 118 to 125, reached when
  every earlier step of \<open>initialize\<close> succeeded.\<close>

lemma initialize_create_agent:
  assumes "CreateAgent kw \<in> set (fst (initialize w cfg))"
  shows "\<exists>vs schema tmpl.
     w_create_vector_store w = Inr vs \<and> w_get_database_info w = Inr schema
     \<and> w_read_file w = Inr tmpl
     \<and> kw = create_agent_kwargs cfg (render_instructions tmpl schema (w_today w))
          [functions_tool, CodeInterpreterTool, FileSearchTool [vs_id vs]]"
proof -
  obtain vs where vs: "w_create_vector_store w = Inr vs"
    using assms by (cases "w_create_vector_store w") (auto simp: initialize_def add_agent_tools_def os_getenv_call_def io_defs)
  have con: "w_connect w = None"
    using assms vs by (cases "w_connect w") (auto simp: initialize_def add_agent_tools_def os_getenv_call_def io_defs)
  obtain schema where schema: "w_get_database_info w = Inr schema"
    using assms vs con by (cases "w_get_database_info w") (auto simp: initialize_def add_agent_tools_def os_getenv_call_def io_defs)
  have isf: "w_is_file w" "\<not> w_conn_is_none w"
    using assms vs con schema
    by (auto simp: initialize_def add_agent_tools_def os_getenv_call_def io_defs Let_def split: if_splits)
  obtain tmpl where tmpl: "w_read_file w = Inr tmpl"
    using assms vs con schema isf
    by (cases "w_read_file w")
       (auto simp: initialize_def add_agent_tools_def os_getenv_call_def io_defs Let_def split: if_splits)
  have auto_calls: "w_enable_auto_function_calls w = None"
    using assms vs con schema isf tmpl
    by (cases "w_enable_auto_function_calls w")
       (auto simp: initialize_def add_agent_tools_def os_getenv_call_def io_defs Let_def split: if_splits)
  have "kw = create_agent_kwargs cfg (render_instructions tmpl schema (w_today w))
          [functions_tool, CodeInterpreterTool, FileSearchTool [vs_id vs]]"
    using assms vs con schema isf tmpl auto_calls
    by (auto simp: initialize_def add_agent_tools_def os_getenv_call_def io_defs Let_def split: sum.splits if_splits)
  with vs schema tmpl show ?thesis by blast
qed

text \<open>
  C1, as the code has it. The agent-creation call passes exactly five keyword arguments:
  the model, the name, the instructions, the toolset and the temperature 0.1. The
  constants \<open>TOP_P\<close> (0.1), \<open>MAX_PROMPT_TOKENS\<close> (10240) and
  \<open>MAX_COMPLETION_TOKENS\<close> (4096) are defined, but the call passes neither a top-p
  value nor a token budget.
\<close>

theorem create_agent_call_arguments:
  assumes "CreateAgent kw \<in> set (fst (initialize w cfg))"
  shows "map fst kw = [''model'', ''name'', ''instructions'', ''toolset'', ''temperature'']
    \<and> map_of kw ''temperature'' = Some (PyFloat TEMPERATURE) \<and> TEMPERATURE = 1 / 10
    \<and> TOP_P = 1 / 10 \<and> MAX_PROMPT_TOKENS = 10240 \<and> MAX_COMPLETION_TOKENS = 4096
    \<and> map_of kw ''top_p'' = None
    \<and> map_of kw ''max_prompt_tokens'' = None
    \<and> map_of kw ''max_completion_tokens'' = None"
  using initialize_create_agent [OF assms]
  by (auto simp: create_agent_kwargs_def TEMPERATURE_def TOP_P_def MAX_PROMPT_TOKENS_def
      MAX_COMPLETION_TOKENS_def)

text \<open>In the scenario the call is made, and it has no argument \<open>top_p\<close>,
  \<open>max_prompt_tokens\<close> or \<open>max_completion_tokens\<close>.\<close>

theorem create_agent_call_arguments_counterexample:
  "CreateAgent
     [(''model'', PyStr ''gpt-4o''), (''name'', PyStr ''Contoso Sales AI Agent''),
      (''instructions'', PyStr ''Schema: tbl(id), Date: 2024-05-01''),
      (''toolset'',
       PyToolSet
        [AsyncFunctionTool [''async_fetch_sales_data_using_sqlite_query''],
         CodeInterpreterTool, FileSearchTool [''vs_1'']]),
      (''temperature'', PyFloat (1 / 10))]
     \<in> set (fst (initialize example_world example_config))
   \<and> map_of
     [(''model'', PyStr ''gpt-4o''), (''name'', PyStr ''Contoso Sales AI Agent''),
      (''instructions'', PyStr ''Schema: tbl(id), Date: 2024-05-01''),
      (''toolset'',
       PyToolSet
        [AsyncFunctionTool [''async_fetch_sales_data_using_sqlite_query''],
         CodeInterpreterTool, FileSearchTool [''vs_1'']]),
      (''temperature'', PyFloat (1 / 10))] ''top_p'' \<noteq> Some (PyFloat TOP_P)
   \<and> map_of
     [(''model'', PyStr ''gpt-4o''), (''name'', PyStr ''Contoso Sales AI Agent''),
      (''instructions'', PyStr ''Schema: tbl(id), Date: 2024-05-01''),
      (''toolset'',
       PyToolSet
        [AsyncFunctionTool [''async_fetch_sales_data_using_sqlite_query''],
         CodeInterpreterTool, FileSearchTool [''vs_1'']]),
      (''temperature'', PyFloat (1 / 10))] ''max_prompt_tokens''
       \<noteq> Some (PyInt MAX_PROMPT_TOKENS)
   \<and> map_of
     [(''model'', PyStr ''gpt-4o''), (''name'', PyStr ''Contoso Sales AI Agent''),
      (''instructions'', PyStr ''Schema: tbl(id), Date: 2024-05-01''),
      (''toolset'',
       PyToolSet
        [AsyncFunctionTool [''async_fetch_sales_data_using_sqlite_query''],
         CodeInterpreterTool, FileSearchTool [''vs_1'']]),
      (''temperature'', PyFloat (1 / 10))] ''max_completion_tokens''
       \<noteq> Some (PyInt MAX_COMPLETION_TOKENS)"
  by (simp add: example_initialize)

theorem create_agent_call_arguments_witness:
  "map_of
     [(''model'', PyStr ''gpt-4o''), (''name'', PyStr ''Contoso Sales AI Agent''),
      (''instructions'', PyStr ''Schema: tbl(id), Date: 2024-05-01''),
      (''toolset'',
       PyToolSet
        [AsyncFunctionTool [''async_fetch_sales_data_using_sqlite_query''],
         CodeInterpreterTool, FileSearchTool [''vs_1'']]),
      (''temperature'', PyFloat (1 / 10))] ''temperature'' = Some (PyFloat TEMPERATURE)
   \<and> TEMPERATURE = 1 / 10"
proof -
  have h: "CreateAgent
     [(''model'', PyStr ''gpt-4o''), (''name'', PyStr ''Contoso Sales AI Agent''),
      (''instructions'', PyStr ''Schema: tbl(id), Date: 2024-05-01''),
      (''toolset'',
       PyToolSet
        [AsyncFunctionTool [''async_fetch_sales_data_using_sqlite_query''],
         CodeInterpreterTool, FileSearchTool [''vs_1'']]),
      (''temperature'', PyFloat (1 / 10))]
     \<in> set (fst (initialize example_world example_config))"
    by (simp add: example_initialize)
  from create_agent_call_arguments [OF h] show ?thesis by blast
qed

text \<open>
  C5. When the vector store, the database connection and the schema are obtained and the
  instructions file does not exist, \<open>initialize\<close> raises \<open>FileNotFoundError\<close> after
  logging it; \<open>main\<close> logs the failure and returns. Each step was made once (nothing
  is tried again), no line is read from the terminal, and \<open>cleanup\<close> does not run.
\<close>

theorem missing_instructions_file_aborts_startup:
  assumes "w_create_vector_store w = Inr vs" and "w_connect w = None"
    and "w_get_database_info w = Inr schema" and "\<not> w_is_file w"
  shows
   "initialize w cfg =
      ([CreateVectorStore [TENTS_DATA_SHEET_FILE] ''Contoso Product Information Vector Store'',
        SalesConnect, GetDatabaseInfo,
        OsGetenv ''ENVIRONMENT'' ''local''
          (os_getenv_default (w_environ w) ''ENVIRONMENT'' ''local''),
        IsFile (joinpath (w_base_dir w) INSTRUCTIONS_FILE),
        LoggerError (''An error occurred initializing the agent: ''
          @ ''Instructions file not found: '' @ joinpath (w_base_dir w) INSTRUCTIONS_FILE),
        LoggerError
          ''Please ensure the instructions file exists and the database is accessible.''],
       Inl (FileNotFoundError
          (''Instructions file not found: '' @ joinpath (w_base_dir w) INSTRUCTIONS_FILE)))
    \<and> main w cfg lines =
      ([CreateVectorStore [TENTS_DATA_SHEET_FILE] ''Contoso Product Information Vector Store'',
        SalesConnect, GetDatabaseInfo,
        OsGetenv ''ENVIRONMENT'' ''local''
          (os_getenv_default (w_environ w) ''ENVIRONMENT'' ''local''),
        IsFile (joinpath (w_base_dir w) INSTRUCTIONS_FILE),
        LoggerError (''An error occurred initializing the agent: ''
          @ ''Instructions file not found: '' @ joinpath (w_base_dir w) INSTRUCTIONS_FILE),
        LoggerError
          ''Please ensure the instructions file exists and the database is accessible.'',
        LoggerError (''Initialization failed: ''
          @ ''Instructions file not found: '' @ joinpath (w_base_dir w) INSTRUCTIONS_FILE)],
       Inr ())
    \<and> Input \<notin> set (fst (main w cfg lines))"
proof -
  have i: "initialize w cfg =
      ([CreateVectorStore [TENTS_DATA_SHEET_FILE] ''Contoso Product Information Vector Store'',
        SalesConnect, GetDatabaseInfo,
        OsGetenv ''ENVIRONMENT'' ''local''
          (os_getenv_default (w_environ w) ''ENVIRONMENT'' ''local''),
        IsFile (joinpath (w_base_dir w) INSTRUCTIONS_FILE),
        LoggerError (''An error occurred initializing the agent: ''
          @ ''Instructions file not found: '' @ joinpath (w_base_dir w) INSTRUCTIONS_FILE),
        LoggerError
          ''Please ensure the instructions file exists and the database is accessible.''],
       Inl (FileNotFoundError
          (''Instructions file not found: '' @ joinpath (w_base_dir w) INSTRUCTIONS_FILE)))"
    using assms
    by (simp add: initialize_def add_agent_tools_def os_getenv_call_def io_defs Let_def exc_defs)
  have m: "main w cfg lines =
      ([CreateVectorStore [TENTS_DATA_SHEET_FILE] ''Contoso Product Information Vector Store'',
        SalesConnect, GetDatabaseInfo,
        OsGetenv ''ENVIRONMENT'' ''local''
          (os_getenv_default (w_environ w) ''ENVIRONMENT'' ''local''),
        IsFile (joinpath (w_base_dir w) INSTRUCTIONS_FILE),
        LoggerError (''An error occurred initializing the agent: ''
          @ ''Instructions file not found: '' @ joinpath (w_base_dir w) INSTRUCTIONS_FILE),
        LoggerError
          ''Please ensure the instructions file exists and the database is accessible.'',
        LoggerError (''Initialization failed: ''
          @ ''Instructions file not found: '' @ joinpath (w_base_dir w) INSTRUCTIONS_FILE)],
       Inr ())"
    unfolding main_def i by (simp add: io_defs exc_defs)
  show ?thesis unfolding m unfolding i by simp
qed

theorem missing_instructions_file_aborts_startup_witness:
  "main (example_world\<lparr>w_is_file := False\<rparr>) example_config [''hello'', ''exit''] =
      ([CreateVectorStore [''datasheet/contoso-tents-datasheet.pdf'']
          ''Contoso Product Information Vector Store'',
        SalesConnect, GetDatabaseInfo, OsGetenv ''ENVIRONMENT'' ''local'' ''local'',
        IsFile ''/app/src/workshop/instructions/instructions_file_search.txt'',
        LoggerError ''An error occurred initializing the agent: Instructions file not found: /app/src/workshop/instructions/instructions_file_search.txt'',
        LoggerError
          ''Please ensure the instructions file exists and the database is accessible.'',
        LoggerError ''Initialization failed: Instructions file not found: /app/src/workshop/instructions/instructions_file_search.txt''],
       Inr ())"
proof -
  have "w_create_vector_store (example_world\<lparr>w_is_file := False\<rparr>) = Inr (VectorStore ''vs_1'')"
    and "w_connect (example_world\<lparr>w_is_file := False\<rparr>) = None"
    and "w_get_database_info (example_world\<lparr>w_is_file := False\<rparr>) = Inr ''tbl(id)''"
    and "\<not> w_is_file (example_world\<lparr>w_is_file := False\<rparr>)"
    by (simp_all add: example_world_def)
  from missing_instructions_file_aborts_startup [OF this, of example_config "[''hello'', ''exit'']"]
  show ?thesis
    by (simp add: example_world_def joinpath_def INSTRUCTIONS_FILE_def TENTS_DATA_SHEET_FILE_def
        os_getenv_default_def)
qed

subsection \<open>A turn that fails\<close>

lemma post_message_cases:
  "post_message w turn tid content agent thread =
    (let mc = MessagesCreate [(''thread_id'', PyStr tid), (''role'', PyStr ''user''),
                (''content'', PyStr content)];
         rs = RunsStream [(''thread_id'', PyStr (thread_id thread)),
                (''agent_id'', PyStr (agent_id agent)), (''event_handler'', PyStreamEventHandler)];
         handle = (\<lambda>t e. if isinstance e ''Exception''
           then (t @ [LogMsgPurple (''An error occurred posting the message: '' @ exc_str e)], Inr ())
           else (t, Inl e))
     in case w_messages_create w turn of
          Some e \<Rightarrow> handle [mc] e
        | None \<Rightarrow>
           (case w_runs_stream w turn of
              Some e \<Rightarrow> handle [mc, rs] e
            | None \<Rightarrow>
               (case w_until_done w turn of
                  Some e \<Rightarrow> handle [mc, rs, UntilDone] e
                | None \<Rightarrow> ([mc, rs, UntilDone], Inr ()))))"
  by (simp add: post_message_def io_defs Let_def split: option.split)

text \<open>An exception that is not an \<open>Exception\<close> passes through \<open>post_message\<close>
  unlogged, as \<open>except Exception\<close> has it.\<close>

lemma post_message_passes_other_exceptions:
  assumes "w_messages_create w turn = Some e" and "\<not> isinstance e ''Exception''"
  shows "post_message w turn tid content agent thread =
    ([MessagesCreate [(''thread_id'', PyStr tid), (''role'', PyStr ''user''),
        (''content'', PyStr content)]], Inl e)"
  using assms by (simp add: post_message_cases)




subsection \<open>The instructions template\<close>

text \<open>
  \<open>str.replace\<close> with a non-empty \<open>old\<close> scans the string once: at each position it
  either finds \<open>old\<close>, emits \<open>new\<close> and skips \<open>old\<close>, or emits one character.
  The properties of the two substitutions follow by induction along that scan.
\<close>

lemma replace_scan_induct [consumes 1, case_names Nil match skip]:
  assumes "old \<noteq> []"
    and "P []"
    and "\<And>c cs. prefix old (c # cs) \<Longrightarrow> P (drop (length old) (c # cs)) \<Longrightarrow> P (c # cs)"
    and "\<And>c cs. \<not> prefix old (c # cs) \<Longrightarrow> P cs \<Longrightarrow> P (c # cs)"
  shows "P s"
proof (induction s rule: length_induct)
  case (1 s)
  show ?case
  proof (cases s)
    case Nil
    with assms(2) show ?thesis by simp
  next
    case (Cons c cs)
    show ?thesis
    proof (cases "prefix old (c # cs)")
      case True
      have "length (drop (length old) (c # cs)) < length s"
        using assms(1) Cons by (cases old) auto
      with 1 have "P (drop (length old) (c # cs))" by blast
      with True assms(3) Cons show ?thesis by blast
    next
      case False
      have "P cs" using 1 Cons by simp
      with False assms(4) Cons show ?thesis by blast
    qed
  qed
qed

lemma str_replace_match:
  "old \<noteq> [] \<Longrightarrow> prefix old (c # cs) \<Longrightarrow>
     str_replace old new (c # cs) = new @ str_replace old new (drop (length old) (c # cs))"
  by simp

lemma str_replace_skip:
  "old \<noteq> [] \<Longrightarrow> \<not> prefix old (c # cs) \<Longrightarrow>
     str_replace old new (c # cs) = c # str_replace old new cs"
  by simp

lemma prefix_of_replaced:
  assumes ne: "old \<noteq> []" and "\<exists>a\<in>set new. a \<notin> set p" and "p = [] \<or> last p \<notin> set new"
    and "prefix p (str_replace old new s)"
  shows "prefix p s"
  using assms
proof (induction s arbitrary: p rule: replace_scan_induct)
  case Nil
  with ne show ?case by simp
next
  case (match c cs)
  show ?case
  proof (cases "p = []")
    case True
    then show ?thesis by simp
  next
    case False
    with match.prems have lastp: "last p \<notin> set new" by simp
    from match.prems(3) have "prefix p (new @ str_replace old new (drop (length old) (c # cs)))"
      by (simp only: str_replace_match [OF ne match.hyps])
    then consider "prefix p new" | us where "p = new @ us"
      by (auto simp: prefix_append)
    then show ?thesis
    proof cases
      case 1
      then have "set p \<subseteq> set new" by (auto simp: prefix_def)
      with False lastp show ?thesis using last_in_set by blast
    next
      case 2
      with match.prems show ?thesis by auto
    qed
  qed
next
  case (skip c cs)
  show ?case
  proof (cases p)
    case Nil
    then show ?thesis by simp
  next
    case (Cons a p')
    from skip.prems(3) have "prefix p (c # str_replace old new cs)"
      by (simp only: str_replace_skip [OF ne skip.hyps])
    with Cons have a: "a = c" and p': "prefix p' (str_replace old new cs)" by simp_all
    have "p' = [] \<or> last p' \<notin> set new" using skip.prems(2) Cons by (cases p') auto
    moreover have "\<exists>a\<in>set new. a \<notin> set p'" using skip.prems(1) Cons by auto
    ultimately have "prefix p' cs" using skip.IH p' by blast
    with Cons a show ?thesis by simp
  qed
qed

lemma prefix_kept:
  assumes ne: "old \<noteq> []" and "hd old \<notin> set p" and "prefix p s"
  shows "prefix p (str_replace old new s)"
  using assms
proof (induction s arbitrary: p rule: replace_scan_induct)
  case Nil
  then show ?case by simp
next
  case (match c cs)
  show ?case
  proof (cases p)
    case Nil
    then show ?thesis by simp
  next
    case (Cons a p')
    with match.prems have "a = c" by simp
    moreover from match ne have "hd old = c" by (cases old) auto
    ultimately show ?thesis using match.prems Cons by simp
  qed
next
  case (skip c cs)
  show ?case
  proof (cases p)
    case Nil
    then show ?thesis by simp
  next
    case (Cons a p')
    with skip.prems have a: "a = c" and "prefix p' cs" and "hd old \<notin> set p'" by simp_all
    then have "prefix p' (str_replace old new cs)" using skip.IH by blast
    with Cons a show ?thesis
      by (simp only: str_replace_skip [OF ne skip.hyps] Cons_prefix_Cons simp_thms)
  qed
qed

lemma sublist_drop_trans: "sublist x (drop n s) \<Longrightarrow> sublist x s"
  using sublist_drop sublist_order.order_trans by blast

lemma hd_in_replacement:
  assumes "x \<noteq> []" and "x = x1 @ x2" and "suffix x1 new" and "x1 \<noteq> []"
  shows "hd x \<in> set new"
proof -
  have "hd x = hd x1" using assms by simp
  moreover have "hd x1 \<in> set x1" using assms(4) by simp
  moreover have "set x1 \<subseteq> set new" using assms(3) by (auto simp: suffix_def)
  ultimately show ?thesis by auto
qed

text \<open>An occurrence of x in the result, where x cannot touch the replacement text.\<close>

lemma sublist_of_replaced:
  assumes ne: "old \<noteq> []" and x: "x \<noteq> []"
    and hd: "hd x \<notin> set new" and last: "last x \<notin> set new"
    and alien: "\<exists>a\<in>set new. a \<notin> set x"
    and sub: "sublist x (str_replace old new s)"
  shows "sublist x s"
  using ne sub
proof (induction s rule: replace_scan_induct)
  case Nil
  with ne x show ?case by simp
next
  case (match c cs)
  let ?rest = "drop (length old) (c # cs)"
  from match.prems have "sublist x (new @ str_replace old new ?rest)"
    by (simp only: str_replace_match [OF ne match.hyps])
  then consider "sublist x new" | "sublist x (str_replace old new ?rest)"
    | x1 x2 where "x = x1 @ x2" "suffix x1 new" "prefix x2 (str_replace old new ?rest)"
    by (auto simp: sublist_append)
  then show ?case
  proof cases
    case 1
    then have "set x \<subseteq> set new" by (rule set_mono_sublist)
    with x hd show ?thesis using hd_in_set by blast
  next
    case 2
    then have "sublist x ?rest" by (rule match.IH)
    then show ?thesis by (rule sublist_drop_trans)
  next
    case 3
    show ?thesis
    proof (cases "x1 = []")
      case True
      with 3 have "sublist x (str_replace old new ?rest)" by auto
      then have "sublist x ?rest" by (rule match.IH)
      then show ?thesis by (rule sublist_drop_trans)
    next
      case False
      with 3 x have "hd x \<in> set new" using hd_in_replacement by blast
      with hd show ?thesis by simp
    qed
  qed
next
  case (skip c cs)
  from skip.prems have "sublist x (c # str_replace old new cs)"
    by (simp only: str_replace_skip [OF ne skip.hyps])
  then consider "prefix x (c # str_replace old new cs)" | "sublist x (str_replace old new cs)"
    by (auto simp: sublist_Cons_right)
  then show ?case
  proof cases
    case 1
    then have "prefix x (str_replace old new (c # cs))"
      by (simp only: str_replace_skip [OF ne skip.hyps])
    then have "prefix x (c # cs)"
      using prefix_of_replaced [OF ne alien] last by blast
    then show ?thesis by simp
  next
    case 2
    then have "sublist x cs" by (rule skip.IH)
    then show ?thesis by (simp add: sublist_Cons_right)
  qed
qed

text \<open>After the replacement no occurrence of old is left, when the replacement text
  cannot form one.\<close>

lemma old_gone:
  assumes ne: "old \<noteq> []"
    and hd: "hd old \<notin> set new" and last: "last old \<notin> set new"
    and alien: "\<exists>a\<in>set new. a \<notin> set old"
  shows "\<not> sublist old (str_replace old new s)"
  using ne
proof (induction s rule: replace_scan_induct)
  case Nil
  with ne show ?case by simp
next
  case (match c cs)
  let ?rest = "drop (length old) (c # cs)"
  show ?case
  proof
    assume "sublist old (str_replace old new (c # cs))"
    then have "sublist old (new @ str_replace old new ?rest)"
      by (simp only: str_replace_match [OF ne match.hyps])
    then consider "sublist old new" | "sublist old (str_replace old new ?rest)"
      | x1 x2 where "old = x1 @ x2" "suffix x1 new" "prefix x2 (str_replace old new ?rest)"
      by (auto simp: sublist_append)
    then show False
    proof cases
      case 1
      then have "set old \<subseteq> set new" by (rule set_mono_sublist)
      with ne hd show False using hd_in_set by blast
    next
      case 2
      with match.IH show False by simp
    next
      case 3
      show False
      proof (cases "x1 = []")
        case True
        with 3 have "sublist old (str_replace old new ?rest)" by auto
        with match.IH show False by simp
      next
        case False
        with 3 ne have "hd old \<in> set new" using hd_in_replacement by blast
        with hd show False by simp
      qed
    qed
  qed
next
  case (skip c cs)
  show ?case
  proof
    assume "sublist old (str_replace old new (c # cs))"
    then have "sublist old (c # str_replace old new cs)"
      by (simp only: str_replace_skip [OF ne skip.hyps])
    then consider "prefix old (c # str_replace old new cs)"
      | "sublist old (str_replace old new cs)"
      by (auto simp: sublist_Cons_right)
    then show False
    proof cases
      case 1
      then have "prefix old (str_replace old new (c # cs))"
        by (simp only: str_replace_skip [OF ne skip.hyps])
      then have "prefix old (c # cs)"
        using prefix_of_replaced [OF ne alien] last by blast
      with skip.hyps show False by simp
    next
      case 2
      with skip.IH show False by simp
    qed
  qed
qed

text \<open>Where old occurs, the result contains the replacement text.\<close>

lemma new_inserted:
  assumes ne: "old \<noteq> []" and "sublist old s"
  shows "sublist new (str_replace old new s)"
  using assms
proof (induction s rule: replace_scan_induct)
  case Nil
  with ne show ?case by simp
next
  case (match c cs)
  show ?case by (simp only: str_replace_match [OF ne match.hyps] sublist_append_rightI)
next
  case (skip c cs)
  from skip.prems skip.hyps have "sublist old cs" by (simp add: sublist_Cons_right)
  then have "sublist new (str_replace old new cs)" by (rule skip.IH)
  then show ?case
    by (simp only: str_replace_skip [OF ne skip.hyps] sublist_Cons_right simp_thms)
qed

text \<open>An occurrence of x survives the replacement when x has neither the first nor the
  last character of old, and a character that old has not: no occurrence of old can
  overlap it.\<close>

lemma text_kept:
  assumes ne: "old \<noteq> []"
    and hd: "hd old \<notin> set x" and last: "last old \<notin> set x"
    and alien: "\<exists>a\<in>set x. a \<notin> set old"
    and sub: "sublist x s"
  shows "sublist x (str_replace old new s)"
  using ne sub
proof (induction s rule: replace_scan_induct)
  case Nil
  with alien show ?case by auto
next
  case (match c cs)
  let ?rest = "drop (length old) (c # cs)"
  have s: "c # cs = old @ ?rest"
    using match.hyps by (auto simp: prefix_def)
  have later: "sublist x (str_replace old new (c # cs))" if "sublist x ?rest"
  proof -
    from that have "sublist x (str_replace old new ?rest)" by (rule match.IH)
    then show ?thesis
      by (simp only: str_replace_match [OF ne match.hyps] sublist_append simp_thms)
  qed
  from match.prems s have "sublist x (old @ ?rest)" by simp
  then consider "sublist x old" | "sublist x ?rest"
    | x1 x2 where "x = x1 @ x2" "suffix x1 old" "prefix x2 ?rest"
    by (auto simp: sublist_append)
  then show ?case
  proof cases
    case 1
    then have "set x \<subseteq> set old" by (rule set_mono_sublist)
    with alien show ?thesis by auto
  next
    case 2
    then show ?thesis by (rule later)
  next
    case 3
    show ?thesis
    proof (cases "x1 = []")
      case True
      with 3 have "sublist x ?rest" by auto
      then show ?thesis by (rule later)
    next
      case False
      from 3(2) obtain zs where "old = zs @ x1" by (auto simp: suffix_def)
      with False have "last old = last x1" by simp
      also have "last x1 \<in> set x" using False 3(1) by simp
      finally show ?thesis using last by simp
    qed
  qed
next
  case (skip c cs)
  from skip.prems consider "prefix x (c # cs)" | "sublist x cs"
    by (auto simp: sublist_Cons_right)
  then show ?case
  proof cases
    case 1
    then have "prefix x (str_replace old new (c # cs))"
      using prefix_kept [OF ne hd] by blast
    then show ?thesis by (rule prefix_imp_sublist)
  next
    case 2
    then have "sublist x (str_replace old new cs)" by (rule skip.IH)
    then show ?thesis
      by (simp only: str_replace_skip [OF ne skip.hyps] sublist_Cons_right simp_thms)
  qed
qed

text \<open>The same for a token x that begins like old does (with a brace): the two
  cannot overlap when the first character of each occurs nowhere else in the other and
  neither begins the other.\<close>

lemma token_kept:
  assumes ne: "old \<noteq> []" and x: "x \<noteq> []"
    and hd_old: "hd old \<notin> set (tl x)" and hd_x: "hd x \<notin> set (tl old)"
    and npre1: "\<not> prefix x old" and npre2: "\<not> prefix old x"
    and sub: "sublist x s"
  shows "sublist x (str_replace old new s)"
  using ne sub
proof (induction s rule: replace_scan_induct)
  case Nil
  with x show ?case by simp
next
  case (match c cs)
  let ?rest = "drop (length old) (c # cs)"
  have s: "c # cs = old @ ?rest"
    using match.hyps by (auto simp: prefix_def)
  have later: "sublist x (str_replace old new (c # cs))" if "sublist x ?rest"
  proof -
    from that have "sublist x (str_replace old new ?rest)" by (rule match.IH)
    then show ?thesis
      by (simp only: str_replace_match [OF ne match.hyps] sublist_append simp_thms)
  qed
  from match.prems s have "sublist x (old @ ?rest)" by simp
  then consider "sublist x old" | "sublist x ?rest"
    | x1 x2 where "x = x1 @ x2" "suffix x1 old" "prefix x2 ?rest"
    by (auto simp: sublist_append)
  then show ?case
  proof cases
    case 1
    then obtain ps ss where old: "old = ps @ x @ ss" by (auto simp: sublist_def)
    show ?thesis
    proof (cases ps)
      case Nil
      with old have "prefix x old" by simp
      with npre1 show ?thesis by simp
    next
      case (Cons a ps')
      with old x have "hd x \<in> set (tl old)" by simp
      with hd_x show ?thesis by simp
    qed
  next
    case 2
    then show ?thesis by (rule later)
  next
    case 3
    show ?thesis
    proof (cases "x1 = []")
      case True
      with 3 have "sublist x ?rest" by auto
      then show ?thesis by (rule later)
    next
      case False
      from 3(2) obtain zs where old: "old = zs @ x1" by (auto simp: suffix_def)
      show ?thesis
      proof (cases zs)
        case Nil
        with old 3(1) have "prefix old x" by simp
        with npre2 show ?thesis by simp
      next
        case (Cons a zs')
        with old False 3(1) have "hd x \<in> set (tl old)" by simp
        with hd_x show ?thesis by simp
      qed
    qed
  qed
next
  case (skip c cs)
  from skip.prems consider "prefix x (c # cs)" | "sublist x cs"
    by (auto simp: sublist_Cons_right)
  then show ?case
  proof cases
    case 1
    with x obtain x' where x': "x = c # x'" and pre: "prefix x' cs"
      by (cases x) auto
    from hd_old x' have "hd old \<notin> set x'" by simp
    then have "prefix x' (str_replace old new cs)"
      using prefix_kept [OF ne _ pre] by blast
    with x' have "prefix x (str_replace old new (c # cs))"
      by (simp only: str_replace_skip [OF ne skip.hyps] Cons_prefix_Cons simp_thms)
    then show ?thesis by (rule prefix_imp_sublist)
  next
    case 2
    then have "sublist x (str_replace old new cs)" by (rule skip.IH)
    then show ?thesis
      by (simp only: str_replace_skip [OF ne skip.hyps] sublist_Cons_right simp_thms)
  qed
qed

lemma digit_char_is_digit: "digit_char n \<in> set ''0123456789''"
proof -
  have "n mod 10 < length ''0123456789''" by simp
  then have "''0123456789'' ! (n mod 10) \<in> set ''0123456789''" by (rule nth_mem)
  then show ?thesis by (simp only: digit_char_def)
qed

lemma strftime_Ymd_chars: "set (strftime_Ymd d) \<subseteq> set ''0123456789-''"
  using digit_char_is_digit
  by (auto simp: strftime_Ymd_def zero_pad4_def zero_pad2_def)

lemma strftime_Ymd_dash: "CHR ''-'' \<in> set (strftime_Ymd d)"
  by (simp add: strftime_Ymd_def)

lemma date_not_in_token:
  assumes "set tok \<inter> set ''0123456789-'' = {}" and "tok \<noteq> []"
  shows "hd tok \<notin> set (strftime_Ymd d)" and "last tok \<notin> set (strftime_Ymd d)"
    and "\<exists>a\<in>set (strftime_Ymd d). a \<notin> set tok"
proof -
  from assms have "hd tok \<in> set tok" "last tok \<in> set tok" by simp_all
  with assms(1) strftime_Ymd_chars [of d]
  show "hd tok \<notin> set (strftime_Ymd d)" "last tok \<notin> set (strftime_Ymd d)" by blast+
  have "CHR ''-'' \<notin> set tok" using assms(1) by auto
  with strftime_Ymd_dash show "\<exists>a\<in>set (strftime_Ymd d). a \<notin> set tok" by blast
qed

lemma schema_token_chars: "set ''{database_schema_string}'' \<inter> set ''0123456789-'' = {}"
  by simp

lemma date_token_chars: "set ''{current_date}'' \<inter> set ''0123456789-'' = {}"
  by simp

lemma render_instructions_properties:
  assumes t1: "sublist ''{database_schema_string}'' template"
    and t2: "sublist ''{current_date}'' template"
    and open_brace: "CHR ''{'' \<notin> set schema" and close_brace: "CHR ''}'' \<notin> set schema"
    and alien1: "\<exists>a\<in>set schema. a \<notin> set ''{database_schema_string}''"
    and alien2: "\<exists>a\<in>set schema. a \<notin> set ''{current_date}''"
  shows "\<not> sublist ''{database_schema_string}'' (render_instructions template schema today)"
    and "\<not> sublist ''{current_date}'' (render_instructions template schema today)"
    and "sublist schema (render_instructions template schema today)"
    and "sublist (strftime_Ymd today) (render_instructions template schema today)"
proof -
  let ?T1 = "''{database_schema_string}''" and ?T2 = "''{current_date}''"
  let ?D = "strftime_Ymd today"
  let ?r1 = "str_replace ?T1 schema template"
  have out: "render_instructions template schema today = str_replace ?T2 ?D ?r1"
    by (simp only: render_instructions_def Let_def)
  have ne1: "?T1 \<noteq> []" and ne2: "?T2 \<noteq> []" by simp_all
  have hd1: "hd ?T1 \<notin> set schema" and last1: "last ?T1 \<notin> set schema"
    using open_brace close_brace by simp_all
  have hd2: "hd ?T2 \<notin> set schema" and last2: "last ?T2 \<notin> set schema"
    using open_brace close_brace by simp_all
  note d1 = date_not_in_token [OF schema_token_chars ne1, of today]
  note d2 = date_not_in_token [OF date_token_chars ne2, of today]
  have no1: "\<not> sublist ?T1 ?r1"
    by (rule old_gone [OF ne1 hd1 last1 alien1])
  show "\<not> sublist ?T1 (render_instructions template schema today)"
  proof
    assume "sublist ?T1 (render_instructions template schema today)"
    then have "sublist ?T1 (str_replace ?T2 ?D ?r1)" by (simp only: out)
    then have "sublist ?T1 ?r1"
      by (rule sublist_of_replaced [OF ne2 ne1 d1])
    with no1 show False by simp
  qed
  show "\<not> sublist ?T2 (render_instructions template schema today)"
    unfolding out by (rule old_gone [OF ne2 d2])
  have "sublist schema ?r1"
    by (rule new_inserted [OF ne1 t1])
  then show "sublist schema (render_instructions template schema today)"
    unfolding out by (rule text_kept [OF ne2 hd2 last2 alien2])
  have "sublist ?T2 ?r1"
    by (rule token_kept [OF ne1 ne2 _ _ _ _ t2]) simp_all
  then show "sublist ?D (render_instructions template schema today)"
    unfolding out by (rule new_inserted [OF ne2])
qed

text \<open>
  C2, as the code has it. \<open>initialize\<close> passes the rendered template as the
  instructions of the agent. For every template that contains both placeholders, and
  every schema string that contains no brace, a character that does not occur in
  \<open>{database_schema_string}\<close> and a character that does not occur in
  \<open>{current_date}\<close> (a space, a parenthesis or a colon, for instance), the rendered
  instructions contain neither placeholder, contain the schema string, and contain the
  date of today as \<open>YYYY-MM-DD\<close>.
\<close>

theorem rendered_instructions_of_initialize:
  assumes "CreateAgent kw \<in> set (fst (initialize w cfg))"
    and "w_read_file w = Inr template" and "w_get_database_info w = Inr schema"
    and "sublist ''{database_schema_string}'' template"
    and "sublist ''{current_date}'' template"
    and "CHR ''{'' \<notin> set schema" and "CHR ''}'' \<notin> set schema"
    and "\<exists>a\<in>set schema. a \<notin> set ''{database_schema_string}''"
    and "\<exists>a\<in>set schema. a \<notin> set ''{current_date}''"
  shows "map_of kw ''instructions''
      = Some (PyStr (render_instructions template schema (w_today w)))
    \<and> \<not> sublist ''{database_schema_string}'' (render_instructions template schema (w_today w))
    \<and> \<not> sublist ''{current_date}'' (render_instructions template schema (w_today w))
    \<and> sublist schema (render_instructions template schema (w_today w))
    \<and> sublist (strftime_Ymd (w_today w)) (render_instructions template schema (w_today w))"
proof -
  from initialize_create_agent [OF assms(1)] assms(2,3)
  have "map_of kw ''instructions''
      = Some (PyStr (render_instructions template schema (w_today w)))"
    by (auto simp: create_agent_kwargs_def)
  with render_instructions_properties [OF assms(4-9), of "w_today w"]
  show ?thesis by simp
qed

text \<open>The scenario of the specification.\<close>

theorem rendered_instructions_of_initialize_witness:
  "map_of
     [(''model'', PyStr ''gpt-4o''), (''name'', PyStr ''Contoso Sales AI Agent''),
      (''instructions'', PyStr ''Schema: tbl(id), Date: 2024-05-01''),
      (''toolset'',
       PyToolSet
        [AsyncFunctionTool [''async_fetch_sales_data_using_sqlite_query''],
         CodeInterpreterTool, FileSearchTool [''vs_1'']]),
      (''temperature'', PyFloat (1 / 10))] ''instructions''
     = Some (PyStr ''Schema: tbl(id), Date: 2024-05-01'')
   \<and> \<not> sublist ''{database_schema_string}'' ''Schema: tbl(id), Date: 2024-05-01''
   \<and> \<not> sublist ''{current_date}'' ''Schema: tbl(id), Date: 2024-05-01''
   \<and> sublist ''tbl(id)'' ''Schema: tbl(id), Date: 2024-05-01''
   \<and> sublist ''2024-05-01'' ''Schema: tbl(id), Date: 2024-05-01''"
proof -
  have h1: "CreateAgent
     [(''model'', PyStr ''gpt-4o''), (''name'', PyStr ''Contoso Sales AI Agent''),
      (''instructions'', PyStr ''Schema: tbl(id), Date: 2024-05-01''),
      (''toolset'',
       PyToolSet
        [AsyncFunctionTool [''async_fetch_sales_data_using_sqlite_query''],
         CodeInterpreterTool, FileSearchTool [''vs_1'']]),
      (''temperature'', PyFloat (1 / 10))]
     \<in> set (fst (initialize example_world example_config))"
    by (simp add: example_initialize)
  have h2: "w_read_file example_world
      = Inr ''Schema: {database_schema_string}, Date: {current_date}''"
    and h3: "w_get_database_info example_world = Inr ''tbl(id)''"
    by (simp_all add: example_world_def)
  have h4: "sublist ''{database_schema_string}''
      ''Schema: {database_schema_string}, Date: {current_date}''"
    and h5: "sublist ''{current_date}'' ''Schema: {database_schema_string}, Date: {current_date}''"
    by (simp_all add: sublist_Cons_right)
  have h6: "CHR ''{'' \<notin> set ''tbl(id)''" and h7: "CHR ''}'' \<notin> set ''tbl(id)''"
    and h8: "\<exists>a\<in>set ''tbl(id)''. a \<notin> set ''{database_schema_string}''"
    and h9: "\<exists>a\<in>set ''tbl(id)''. a \<notin> set ''{current_date}''"
    by simp_all
  have r: "render_instructions ''Schema: {database_schema_string}, Date: {current_date}''
      ''tbl(id)'' (w_today example_world) = ''Schema: tbl(id), Date: 2024-05-01''"
    and d: "strftime_Ymd (w_today example_world) = ''2024-05-01''"
    by (simp_all add: example_world_def render_instructions_def strftime_Ymd_def
        zero_pad4_def zero_pad2_def digit_char_def)
  from rendered_instructions_of_initialize [OF h1 h2 h3 h4 h5 h6 h7 h8 h9]
  show ?thesis by (simp only: r d) simp
qed

text \<open>
  Without the condition on the schema string the property fails: with the template of the
  scenario and a schema string that is itself the text \<open>{current_date}\<close>, the second
  substitution replaces the schema string too, and the instructions that \<open>initialize\<close>
  passes do not contain it.
\<close>

theorem rendered_instructions_of_initialize_counterexample:
  "sublist ''{database_schema_string}'' ''Schema: {database_schema_string}, Date: {current_date}''
   \<and> sublist ''{current_date}'' ''Schema: {database_schema_string}, Date: {current_date}''
   \<and> w_read_file (example_world\<lparr>w_get_database_info := Inr ''{current_date}''\<rparr>)
       = Inr ''Schema: {database_schema_string}, Date: {current_date}''
   \<and> CreateAgent
       [(''model'', PyStr ''gpt-4o''), (''name'', PyStr ''Contoso Sales AI Agent''),
        (''instructions'', PyStr ''Schema: 2024-05-01, Date: 2024-05-01''),
        (''toolset'',
         PyToolSet
          [AsyncFunctionTool [''async_fetch_sales_data_using_sqlite_query''],
           CodeInterpreterTool, FileSearchTool [''vs_1'']]),
        (''temperature'', PyFloat (1 / 10))]
       \<in> set (fst (initialize (example_world\<lparr>w_get_database_info := Inr ''{current_date}''\<rparr>)
                example_config))
   \<and> \<not> sublist ''{current_date}'' ''Schema: 2024-05-01, Date: 2024-05-01''"
proof -
  have "initialize (example_world\<lparr>w_get_database_info := Inr ''{current_date}''\<rparr>) example_config =
     ([CreateVectorStore [''datasheet/contoso-tents-datasheet.pdf'']
         ''Contoso Product Information Vector Store'',
       SalesConnect, GetDatabaseInfo, OsGetenv ''ENVIRONMENT'' ''local'' ''local'',
       IsFile ''/app/src/workshop/instructions/instructions_file_search.txt'',
       ReadFile ''/app/src/workshop/instructions/instructions_file_search.txt'',
       EnableAutoFunctionCalls [''async_fetch_sales_data_using_sqlite_query''],
       CreateAgent
        [(''model'', PyStr ''gpt-4o''), (''name'', PyStr ''Contoso Sales AI Agent''),
         (''instructions'', PyStr ''Schema: 2024-05-01, Date: 2024-05-01''),
         (''toolset'',
          PyToolSet
           [AsyncFunctionTool [''async_fetch_sales_data_using_sqlite_query''],
            CodeInterpreterTool, FileSearchTool [''vs_1'']]),
         (''temperature'', PyFloat (1 / 10))],
       CreateThread],
      Inr (Agent ''asst_1'', Thread ''thread_1''))"
    by (simp add: initialize_def add_agent_tools_def os_getenv_call_def io_defs example_world_def example_config_def
      render_instructions_def create_agent_kwargs_def joinpath_def INSTRUCTIONS_FILE_def
      TENTS_DATA_SHEET_FILE_def functions_tool_def py_optional_str_def TEMPERATURE_def
      strftime_Ymd_def zero_pad4_def zero_pad2_def digit_char_def os_getenv_default_def Let_def)
  then show ?thesis
    by (simp add: sublist_Cons_right example_world_def)
qed

end
